theory Spec2Isabelle
  imports Main "HOL-Library.Signed_Division"
begin

section \<open>Go integers\<close>

text \<open>
  Go's \<open>int\<close> is taken at its width on the 64-bit targets: a two's complement value in
  \<open>[-2^63, 2^63)\<close>. It is modelled as an \<open>int\<close> in that range. \<open>/\<close> and \<open>%\<close>
  truncate towards zero (\<open>sdiv\<close> and \<open>smod\<close>); \<open>+\<close> and \<open>*\<close> wrap around, which
  \<open>wrap64\<close> writes out.
\<close>

definition wrap64 :: "int \<Rightarrow> int" where
  "wrap64 x = (x + 2 ^ 63) mod 2 ^ 64 - 2 ^ 63"

definition add64 :: "int \<Rightarrow> int \<Rightarrow> int" where
  "add64 a b = wrap64 (a + b)"

definition mul64 :: "int \<Rightarrow> int \<Rightarrow> int" where
  "mul64 a b = wrap64 (a * b)"

section \<open>Column codec\<close>

text \<open>
  \<open>columnToLetter\<close>: the loop \<open>for column > 0\<close> with its two updated variables
  \<open>column\<close> and \<open>letter\<close>. \<open>string(temp+65)\<close> is the one-byte string of the code
  point \<open>temp + 65\<close>, which lies in \<open>65..90\<close> inside the loop. Inside the loop
  \<open>column\<close> is positive, so neither \<open>column - 1\<close> nor \<open>column - temp - 1\<close> can leave
  the 64-bit range and no wrap-around is written.
\<close>

function columnToLetter_loop :: "int \<Rightarrow> string \<Rightarrow> string" where
  "columnToLetter_loop column letter =
     (if column > 0 then
        (let temp = (column - 1) smod 26
         in columnToLetter_loop ((column - temp - 1) sdiv 26) (char_of (temp + 65) # letter))
      else letter)"
  by pat_completeness auto
termination
proof (relation "measure (\<lambda>(column, letter). nat column)", goal_cases)
  case 1
  show ?case by simp
next
  case (2 column letter temp)
  have "0 \<le> column - 1" using 2 by simp
  then have t: "temp = (column - 1) mod 26"
    using 2 by (simp add: signed_modulo_int_def sgn_if)
  then have "0 \<le> temp" by simp
  moreover have "(column - 1) mod 26 \<le> column - 1"
    using \<open>0 \<le> column - 1\<close> by (rule zmod_le_nonneg_dividend)
  then have "temp \<le> column - 1" using t by simp
  ultimately have n: "0 \<le> column - temp - 1" "column - temp - 1 < column" by simp_all
  have "(column - temp - 1) sdiv 26 = (column - temp - 1) div 26"
    using n by (simp add: signed_divide_int_def sgn_if)
  moreover have "(column - temp - 1) div 26 \<le> column - temp - 1"
    using n(1) zdiv_mono2 [of "column - temp - 1" 1 26] by simp
  ultimately show ?case using 2 n by simp
qed

definition columnToLetter :: "int \<Rightarrow> string" where
  "columnToLetter column = columnToLetter_loop column []"

declare columnToLetter_loop.simps [simp del]

text \<open>
  \<open>int(math.Pow(26, float64(e)))\<close>. For \<open>e \<le> 13\<close> the power \<open>26 ^ e\<close> is below
  \<open>2 ^ 63\<close> and its odd part \<open>13 ^ e\<close> is below \<open>2 ^ 53\<close>, so the float64 power is
  exact and converts back to the same integer. From \<open>e = 14\<close> on the power is
  outside the range of \<open>int\<close> and Go leaves the converted value to the platform: it is
  the parameter \<open>conv\<close>.
\<close>

definition pow26 :: "(nat \<Rightarrow> int) \<Rightarrow> nat \<Rightarrow> int" where
  "pow26 conv e = (if e \<le> 13 then 26 ^ e else conv e)"

text \<open>
  \<open>letterToColumn\<close>: the loop \<open>for i := 0; i < length; i++\<close>; \<open>letter[i]\<close> is a byte,
  read in range since \<open>i < length = len(letter)\<close>.
\<close>

function letterToColumn_loop :: "(nat \<Rightarrow> int) \<Rightarrow> string \<Rightarrow> nat \<Rightarrow> nat \<Rightarrow> int \<Rightarrow> int" where
  "letterToColumn_loop conv letter len i column =
     (if i < len then
        letterToColumn_loop conv letter len (i + 1)
          (add64 column (mul64 (of_char (letter ! i) - 64) (pow26 conv (len - i - 1))))
      else column)"
  by pat_completeness auto
termination
  by (relation "measure (\<lambda>(conv, letter, len, i, column). len - i)") auto

definition letterToColumn :: "(nat \<Rightarrow> int) \<Rightarrow> string \<Rightarrow> int" where
  "letterToColumn conv letter = letterToColumn_loop conv letter (length letter) 0 0"

declare letterToColumn_loop.simps [simp del]

section \<open>Decimal formatting\<close>

text \<open>
  \<open>strconv.Itoa\<close>, and the verb \<open>%d\<close> of \<open>fmt\<close> on an \<open>int\<close>: the decimal digits of
  the value, with a leading minus sign for a negative one.
\<close>

function digits10 :: "nat \<Rightarrow> string" where
  "digits10 n = (if n < 10 then [char_of (48 + n)]
                 else digits10 (n div 10) @ [char_of (48 + n mod 10)])"
  by pat_completeness auto
termination
  by (relation "measure id") auto

declare digits10.simps [simp del]

definition Itoa :: "int \<Rightarrow> string" where
  "Itoa i = (if i < 0 then CHR ''-'' # digits10 (nat (- i)) else digits10 (nat i))"

section \<open>The remote services\<close>

text \<open>
  The Drive and Sheets clients are external. Each request the code sends (\<open>...Do()\<close>)
  is a function of an abstract state \<open>'w\<close> of the outside world to an answer and the
  next state; an answer is either the error \<open>'e\<close> or the value, as \<open>Do\<close> returns
  \<open>(nil, err)\<close> or \<open>(value, nil)\<close>. Nothing is assumed about these functions. Every
  request sent is also recorded, in order, in \<open>calls\<close>.
\<close>

record File =
  Id :: string
  Name :: string
  MimeType :: string
  Parents :: "string list"

datatype call =
    Files_List_Do string
  | Files_Create_Do File
  | Values_Update_Do string string "string list list" string
  | Spreadsheets_Get_Do string

record 'w env =
  world :: 'w
  calls :: "call list"

record ('w, 'e) drive_Service =
  Files_List :: "string \<Rightarrow> 'w \<Rightarrow> ('e + File list) \<times> 'w"
  Files_Create :: "File \<Rightarrow> 'w \<Rightarrow> ('e + File) \<times> 'w"

text \<open>
  \<open>Values_Update\<close> takes the spreadsheet id, the range, the rows of the value range and
  the value input option. The cells are \<open>interface{}\<close> in Go; every cell this code
  builds holds a string.
\<close>

record ('w, 'e, 's) sheets_Service =
  Values_Update ::
    "string \<Rightarrow> string \<Rightarrow> string list list \<Rightarrow> string \<Rightarrow> 'w \<Rightarrow> 'e option \<times> 'w"
  Spreadsheets_Get :: "string \<Rightarrow> 'w \<Rightarrow> ('e + 's) \<times> 'w"

text \<open>An error is one a service returned, or one built by \<open>fmt.Errorf\<close>.\<close>

datatype 'e error = Remote 'e | Errorf string

section \<open>GDrive\<close>

text \<open>
  The struct \<open>GDrive\<close>. A \<open>*sheets.Spreadsheet\<close> is an \<open>'s option\<close>, \<open>None\<close> the nil
  pointer. \<open>Create\<close> builds the struct without the field \<open>sheets\<close>: a nil map, which
  reads as the empty map.
\<close>

record ('w, 'e, 's) GDrive =
  driveSrv :: "('w, 'e) drive_Service"
  sheetsSrv :: "('w, 'e, 's) sheets_Service"
  folderID :: string
  sheets :: "string \<rightharpoonup> 's option"

text \<open>
  \<open>updateSheetHead\<close>. The Go map \<open>data\<close> is the list of its entries in the order in
  which this \<open>range\<close> loop yields them (an order Go does not fix); the keys of a map
  are distinct.
\<close>

definition updateSheetHead ::
  "('w, 'e, 's) GDrive \<Rightarrow> string \<Rightarrow> string \<Rightarrow> string \<Rightarrow> (string \<times> 'v list) list \<Rightarrow>
     'w env \<Rightarrow> 'e option \<times> 'w env" where
  "updateSheetHead gDrive fileID title description data e =
     (let keys = map fst data;
          values = [[description], keys];
          rng = ''A1:'' @ columnToLetter (1 + int (length keys)) @ Itoa (int (length values));
          (err, w) = Values_Update (sheetsSrv gDrive) fileID rng values ''RAW'' (world e)
      in (err, \<lparr>world = w, calls = calls e @ [Values_Update_Do fileID rng values ''RAW'']\<rparr>))"

text \<open>The query of \<open>getSheet\<close>: the two \<open>Sprintf\<close> results around \<open>" and"\<close>.\<close>

definition listQuery :: "string \<Rightarrow> string \<Rightarrow> string" where
  "listQuery title folder =
     (''name = '' @ [CHR 0x27] @ title @ [CHR 0x27]) @ '' and'' @
     ([CHR 0x27] @ folder @ [CHR 0x27] @ '' in parents'')"

text \<open>The \<open>drive.File\<close> that \<open>getSheet\<close> asks to create; its \<open>Id\<close> is left empty.\<close>

definition newFile :: "string \<Rightarrow> string \<Rightarrow> File" where
  "newFile title folder =
     \<lparr>Id = [], Name = title, MimeType = ''application/vnd.google-apps.spreadsheet'',
      Parents = [folder]\<rparr>"

text \<open>
  \<open>getSheet\<close> has a pointer receiver: it returns its result, the struct after the call
  and the outside world after the call. In the branch of one listed file the error of
  \<open>Spreadsheets.Get\<close> is assigned and not looked at: the function then returns the nil
  sheet and no error.
\<close>

definition getSheet ::
  "('w, 'e, 's) GDrive \<Rightarrow> string \<Rightarrow> string \<Rightarrow> (string \<times> 'v list) list \<Rightarrow> 'w env \<Rightarrow>
     ('e error + 's option) \<times> ('w, 'e, 's) GDrive \<times> 'w env" where
  "getSheet gDrive title description data e =
     (case sheets gDrive title of
        Some sheet \<Rightarrow> (Inr sheet, gDrive, e)
      | None \<Rightarrow>
          (let q = listQuery title (folderID gDrive);
               (listed, w1) = Files_List (driveSrv gDrive) q (world e);
               e1 = \<lparr>world = w1, calls = calls e @ [Files_List_Do q]\<rparr>
           in case listed of
                Inl err \<Rightarrow> (Inl (Remote err), gDrive, e1)
              | Inr files \<Rightarrow>
                  if length files = 0 then
                    (let new = newFile title (folderID gDrive);
                         (created, w2) = Files_Create (driveSrv gDrive) new (world e1);
                         e2 = \<lparr>world = w2, calls = calls e1 @ [Files_Create_Do new]\<rparr>
                     in case created of
                          Inl err \<Rightarrow> (Inl (Remote err), gDrive, e2)
                        | Inr file \<Rightarrow>
                            (case updateSheetHead gDrive (Id file) title description data e2 of
                               (Some err, e3) \<Rightarrow> (Inl (Remote err), gDrive, e3)
                             | (None, e3) \<Rightarrow>
                                 (let (fetched, w4) =
                                        Spreadsheets_Get (sheetsSrv gDrive) (Id file) (world e3);
                                      e4 = \<lparr>world = w4,
                                            calls = calls e3 @ [Spreadsheets_Get_Do (Id file)]\<rparr>
                                  in case fetched of
                                       Inl err \<Rightarrow> (Inl (Remote err), gDrive, e4)
                                     | Inr sheet \<Rightarrow> (Inr (Some sheet), gDrive, e4))))
                  else if length files = 1 then
                    (case updateSheetHead gDrive (Id (files ! 0)) title description data e1 of
                       (Some err, e3) \<Rightarrow> (Inl (Remote err), gDrive, e3)
                     | (None, e3) \<Rightarrow>
                         (let (fetched, w4) =
                                Spreadsheets_Get (sheetsSrv gDrive) (Id (files ! 0)) (world e3);
                              e4 = \<lparr>world = w4,
                                    calls = calls e3 @ [Spreadsheets_Get_Do (Id (files ! 0))]\<rparr>
                          in case fetched of
                               Inl err \<Rightarrow> (Inr None, gDrive, e4)
                             | Inr sheet \<Rightarrow> (Inr (Some sheet), gDrive, e4)))
                  else
                    (Inl (Errorf (''Got '' @ Itoa (int (length files)) @ '' files with name '' @
                                  title @ '', expected 1'')), gDrive, e1)))"

text \<open>\<open>LogRow\<close> has a value receiver: its copy of the struct is dropped on return.\<close>

definition LogRow ::
  "('w, 'e, 's) GDrive \<Rightarrow> string \<Rightarrow> string \<Rightarrow> (string \<times> 'v list) list \<Rightarrow> 'w env \<Rightarrow>
     'e error option \<times> 'w env" where
  "LogRow gDrive title description row e =
     (case getSheet gDrive title description row e of
        (Inl err, _, e') \<Rightarrow> (Some err, e')
      | (Inr _, _, e') \<Rightarrow> (None, e'))"

section \<open>Vocabulary of the statements\<close>

text \<open>The value of a label read as bijective base 26, and the letters \<open>A\<close> to \<open>Z\<close>.\<close>

fun label_value :: "string \<Rightarrow> int" where
  "label_value [] = 0"
| "label_value (c # cs) = (of_char c - 64) * 26 ^ length cs + label_value cs"

definition upper :: "char \<Rightarrow> bool" where
  "upper c = (65 \<le> (of_char c :: int) \<and> (of_char c :: int) \<le> 90)"

text \<open>The requests sent between two states, and how many of them create or write.\<close>

definition performed :: "'w env \<Rightarrow> 'w env \<Rightarrow> call list" where
  "performed e e' = drop (length (calls e)) (calls e')"

fun is_create :: "call \<Rightarrow> bool" where
  "is_create (Files_Create_Do f) = True"
| "is_create c = False"

fun is_header_write :: "call \<Rightarrow> bool" where
  "is_header_write (Values_Update_Do i r v opt) = True"
| "is_header_write c = False"

definition creates :: "call list \<Rightarrow> nat" where
  "creates cs = length (filter is_create cs)"

definition header_writes :: "call list \<Rightarrow> nat" where
  "header_writes cs = length (filter is_header_write cs)"

text \<open>
  Two calls of \<open>getSheet\<close> for the same title, the second on the struct and the world
  the first one left: the two results, the directory entry of the title between the
  calls, and the requests each call sent.
\<close>

definition getSheet_twice ::
  "('w, 'e, 's) GDrive \<Rightarrow> string \<Rightarrow> string \<Rightarrow> (string \<times> 'v list) list \<Rightarrow> 'w env \<Rightarrow>
     ('e error + 's option) \<times> ('e error + 's option) \<times> 's option option \<times> call list \<times> call list" where
  "getSheet_twice gDrive title description data e =
     (case getSheet gDrive title description data e of
        (r1, g1, e1) \<Rightarrow>
          (case getSheet g1 title description data e1 of
             (r2, g2, e2) \<Rightarrow> (r1, r2, sheets g1 title, performed e e1, performed e1 e2)))"

text \<open>
  A remote whose four requests give fixed answers, in the folder \<open>F\<close> and with the empty
  directory that \<open>Create\<close> builds: the concrete runs below use it.
\<close>

definition scripted ::
  "('e + File list) \<Rightarrow> ('e + File) \<Rightarrow> 'e option \<Rightarrow> ('e + 's) \<Rightarrow> (unit, 'e, 's) GDrive" where
  "scripted listed created updated fetched =
     \<lparr>driveSrv = \<lparr>Files_List = (\<lambda>q w. (listed, w)), Files_Create = (\<lambda>f w. (created, w))\<rparr>,
      sheetsSrv = \<lparr>Values_Update = (\<lambda>i r v opt w. (updated, w)),
                   Spreadsheets_Get = (\<lambda>i w. (fetched, w))\<rparr>,
      folderID = ''F'', sheets = Map.empty\<rparr>"

definition start :: "unit env" where
  "start = \<lparr>world = (), calls = []\<rparr>"

text \<open>What the amd64 target gives for a float64 out of the range of \<open>int\<close>.\<close>

definition conv_amd64 :: "nat \<Rightarrow> int" where
  "conv_amd64 e = - (2 ^ 63)"

section \<open>Column codec: facts\<close>

lemma smod_nonneg: "0 \<le> a \<Longrightarrow> 0 < b \<Longrightarrow> (a::int) smod b = a mod b"
  by (simp add: signed_modulo_int_def sgn_if)

lemma sdiv_nonneg: "0 \<le> a \<Longrightarrow> 0 < b \<Longrightarrow> (a::int) sdiv b = a div b"
  by (simp add: signed_divide_int_def sgn_if)

lemma columnToLetter_loop_pos:
  "0 < column \<Longrightarrow> columnToLetter_loop column letter =
     columnToLetter_loop ((column - 1) div 26) (char_of ((column - 1) mod 26 + 65) # letter)"
proof -
  assume p: "0 < column"
  let ?t = "(column - 1) mod 26"
  have t: "(column - 1) smod 26 = ?t" using p by (simp add: smod_nonneg)
  have "column - ?t - 1 = 26 * ((column - 1) div 26)"
    by (simp add: algebra_simps minus_mod_eq_mult_div [symmetric])
  then have d: "(column - ?t - 1) sdiv 26 = (column - 1) div 26"
    using p by (simp add: sdiv_nonneg pos_imp_zdiv_nonneg_iff)
  show ?thesis
    by (subst columnToLetter_loop.simps) (simp add: p t d Let_def)
qed

lemma columnToLetter_loop_nonpos: "column \<le> 0 \<Longrightarrow> columnToLetter_loop column letter = letter"
  by (subst columnToLetter_loop.simps) simp

lemma label_value_append:
  "label_value (xs @ ys) = label_value xs * 26 ^ length ys + label_value ys"
  by (induction xs) (simp_all add: algebra_simps power_add)

lemma div26_less: "0 < (column::int) \<Longrightarrow> nat ((column - 1) div 26) < nat column"
  using zdiv_mono2 [of "column - 1" 1 26] by simp

lemma columnToLetter_loop_acc:
  "columnToLetter_loop column letter = columnToLetter_loop column [] @ letter"
proof (induction "nat column" arbitrary: column letter rule: less_induct)
  case less
  show ?case
  proof (cases "0 < column")
    case True
    let ?c = "char_of ((column - 1) mod 26 + 65) :: char"
    let ?n = "(column - 1) div 26"
    have "columnToLetter_loop column letter = columnToLetter_loop ?n (?c # letter)"
      using True by (rule columnToLetter_loop_pos)
    also have "\<dots> = columnToLetter_loop ?n [] @ (?c # letter)"
      using True by (intro less) (rule div26_less)
    also have "\<dots> = (columnToLetter_loop ?n [] @ [?c]) @ letter" by simp
    also have "columnToLetter_loop ?n [] @ [?c] = columnToLetter_loop ?n [?c]"
      using True by (intro less [symmetric]) (rule div26_less)
    also have "\<dots> = columnToLetter_loop column []"
      using True by (rule columnToLetter_loop_pos [symmetric])
    finally show ?thesis .
  next
    case False
    then show ?thesis by (simp add: columnToLetter_loop_nonpos)
  qed
qed

lemma columnToLetter_pos:
  "0 < column \<Longrightarrow> columnToLetter column =
     columnToLetter ((column - 1) div 26) @ [char_of ((column - 1) mod 26 + 65)]"
  unfolding columnToLetter_def
  by (subst columnToLetter_loop_pos, assumption, subst columnToLetter_loop_acc) simp

lemma columnToLetter_nonpos: "column \<le> 0 \<Longrightarrow> columnToLetter column = []"
  by (simp add: columnToLetter_def columnToLetter_loop_nonpos)

lemma of_char_digit:
  "0 \<le> (t::int) \<Longrightarrow> t < 26 \<Longrightarrow> of_char (char_of (t + 65)) = t + 65"
  by (simp add: of_char_of)

lemma columnToLetter_value:
  "0 \<le> column \<Longrightarrow> label_value (columnToLetter column) = column"
proof (induction "nat column" arbitrary: column rule: less_induct)
  case less
  show ?case
  proof (cases "0 < column")
    case True
    let ?t = "(column - 1) mod 26"
    let ?n = "(column - 1) div 26"
    have n: "0 \<le> ?n" using True by (simp add: pos_imp_zdiv_nonneg_iff)
    have "label_value (columnToLetter ?n) = ?n"
      using True n by (intro less) (rule div26_less)
    moreover have "of_char (char_of (?t + 65)) = ?t + 65"
      by (rule of_char_digit) simp_all
    ultimately show ?thesis
      using True by (simp add: columnToLetter_pos label_value_append)
  next
    case False
    then show ?thesis using less.prems by (simp add: columnToLetter_nonpos)
  qed
qed

lemma columnToLetter_upper:
  "\<forall>c \<in> set (columnToLetter column). upper c"
proof (induction "nat column" arbitrary: column rule: less_induct)
  case less
  show ?case
  proof (cases "0 < column")
    case True
    let ?t = "(column - 1) mod 26"
    let ?n = "(column - 1) div 26"
    have "\<forall>c \<in> set (columnToLetter ?n). upper c"
      using True by (intro less) (rule div26_less)
    moreover have "of_char (char_of (?t + 65)) = ?t + 65"
      by (rule of_char_digit) simp_all
    then have "upper (char_of (?t + 65))" by (simp add: upper_def)
    ultimately show ?thesis
      using True by (simp add: columnToLetter_pos)
  next
    case False
    then show ?thesis by (simp add: columnToLetter_nonpos)
  qed
qed

lemma pow26_small: "(26::int) ^ e < 2 ^ 63 \<Longrightarrow> pow26 conv e = 26 ^ e"
proof -
  assume b: "(26::int) ^ e < 2 ^ 63"
  have "e \<le> 13"
  proof (rule ccontr)
    assume "\<not> e \<le> 13"
    then have "14 \<le> e" by simp
    then have "(26::int) ^ 14 \<le> 26 ^ e" by (intro power_increasing) simp_all
    with b show False by simp
  qed
  then show ?thesis by (simp add: pow26_def)
qed

lemma wrap64_id: "0 \<le> x \<Longrightarrow> x < 2 ^ 63 \<Longrightarrow> wrap64 x = x"
  by (simp add: wrap64_def)

lemma label_value_nonneg: "\<forall>c \<in> set cs. upper c \<Longrightarrow> 0 \<le> label_value cs"
  by (induction cs) (simp_all add: upper_def)

lemma letterToColumn_loop_value:
  assumes "len = length letter" "i \<le> len" "\<forall>c \<in> set letter. upper c"
    "0 \<le> column" "column + label_value (drop i letter) < 2 ^ 63"
  shows "letterToColumn_loop conv letter len i column = column + label_value (drop i letter)"
  using assms
proof (induction conv letter len i column rule: letterToColumn_loop.induct)
  case (1 conv letter len i column)
  note len = \<open>len = length letter\<close>
  note up = \<open>\<forall>c \<in> set letter. upper c\<close>
  note col0 = \<open>0 \<le> column\<close>
  show ?case
  proof (cases "i < len")
    case True
    let ?d = "of_char (letter ! i) - 64 :: int"
    let ?e = "len - i - 1"
    let ?rest = "drop (i + 1) letter"
    have dr: "drop i letter = letter ! i # ?rest"
      using True len by (simp add: Cons_nth_drop_Suc)
    have "upper (letter ! i)" using True up len by simp
    then have d: "1 \<le> ?d" "?d \<le> 26" by (simp_all add: upper_def)
    have rest0: "0 \<le> label_value ?rest"
      using up by (intro label_value_nonneg) (auto dest: in_set_dropD)
    have v: "label_value (drop i letter) = ?d * 26 ^ ?e + label_value ?rest"
      using len by (simp add: dr del: drop_Suc)
    have term0: "0 \<le> ?d * 26 ^ ?e" using d by simp
    have bound: "column + ?d * 26 ^ ?e + label_value ?rest < 2 ^ 63"
      using 1(6) v by simp
    have "1 * (26::int) ^ ?e \<le> ?d * 26 ^ ?e"
      using d(1) by (intro mult_right_mono) simp_all
    then have "(26::int) ^ ?e < 2 ^ 63"
      using bound rest0 col0 by linarith
    then have p: "pow26 conv ?e = 26 ^ ?e" by (rule pow26_small)
    have tb: "?d * 26 ^ ?e < 2 ^ 63" "column + ?d * 26 ^ ?e < 2 ^ 63"
      using bound rest0 col0 by linarith+
    have m: "mul64 ?d (pow26 conv ?e) = ?d * 26 ^ ?e"
      unfolding mul64_def p using term0 tb(1) by (rule wrap64_id)
    have a: "add64 column (?d * 26 ^ ?e) = column + ?d * 26 ^ ?e"
      unfolding add64_def using term0 col0 tb(2) by (intro wrap64_id) simp_all
    have "letterToColumn_loop conv letter len i column =
            letterToColumn_loop conv letter len (i + 1)
              (add64 column (mul64 ?d (pow26 conv ?e)))"
      using True by (subst letterToColumn_loop.simps) simp
    also have "\<dots> = add64 column (mul64 ?d (pow26 conv ?e)) + label_value ?rest"
    proof (rule 1(1) [OF True len _ up])
      show "i + 1 \<le> len" using True by simp
      show "0 \<le> add64 column (mul64 ?d (pow26 conv ?e))"
        unfolding m a using term0 col0 by simp
      show "add64 column (mul64 ?d (pow26 conv ?e)) + label_value ?rest < 2 ^ 63"
        unfolding m a using bound .
    qed
    finally show ?thesis unfolding m a using v by simp
  next
    case False
    then show ?thesis using 1(3) len by (subst letterToColumn_loop.simps) simp
  qed
qed

lemma letterToColumn_Nil: "letterToColumn conv [] = 0"
  by (simp add: letterToColumn_def letterToColumn_loop.simps)

text \<open>
  C9: \<open>columnToLetter\<close> gives \<open>A\<close> for 1, \<open>Z\<close> for 26, \<open>AA\<close> for 27 and \<open>ZZ\<close> for 702.
\<close>

theorem columnToLetter_examples:
  "columnToLetter 1 = ''A'' \<and> columnToLetter 26 = ''Z'' \<and>
   columnToLetter 27 = ''AA'' \<and> columnToLetter 702 = ''ZZ''"
  by (simp add: columnToLetter_def columnToLetter_loop_pos columnToLetter_loop_nonpos char_of_def)

text \<open>
  C4: for every positive \<open>n\<close> of Go's \<open>int\<close>, converting \<open>n\<close> to its label and the label
  back gives \<open>n\<close>, whatever the platform does with an out-of-range float64: no step of
  \<open>letterToColumn\<close> wraps around or leaves the exact range of \<open>math.Pow\<close> on such a
  label.
\<close>

theorem letterToColumn_columnToLetter:
  "0 < n \<Longrightarrow> n < 2 ^ 63 \<Longrightarrow> letterToColumn conv (columnToLetter n) = n"
  unfolding letterToColumn_def
  using letterToColumn_loop_value [of "length (columnToLetter n)" "columnToLetter n" 0 0 conv]
  by (simp add: columnToLetter_value columnToLetter_upper)

theorem letterToColumn_columnToLetter_witness:
  "(0::int) < 703 \<and> (703::int) < 2 ^ 63 \<and>
   letterToColumn conv_amd64 (columnToLetter 1) = 1 \<and>
   letterToColumn conv_amd64 (columnToLetter 25) = 25 \<and>
   letterToColumn conv_amd64 (columnToLetter 26) = 26 \<and>
   letterToColumn conv_amd64 (columnToLetter 27) = 27 \<and>
   letterToColumn conv_amd64 (columnToLetter 52) = 52 \<and>
   letterToColumn conv_amd64 (columnToLetter 676) = 676 \<and>
   letterToColumn conv_amd64 (columnToLetter 702) = 702 \<and>
   letterToColumn conv_amd64 (columnToLetter 703) = 703"
  using letterToColumn_columnToLetter [of 1 conv_amd64]
    letterToColumn_columnToLetter [of 25 conv_amd64]
    letterToColumn_columnToLetter [of 26 conv_amd64]
    letterToColumn_columnToLetter [of 27 conv_amd64]
    letterToColumn_columnToLetter [of 52 conv_amd64]
    letterToColumn_columnToLetter [of 676 conv_amd64]
    letterToColumn_columnToLetter [of 702 conv_amd64]
    letterToColumn_columnToLetter [of 703 conv_amd64]
  by simp

text \<open>
  C10, as amended: for every \<open>n \<le> 0\<close> the loop of \<open>columnToLetter\<close> does not run
  and the result is the empty string; \<open>letterToColumn\<close> of it is 0, which differs
  from \<open>n\<close> exactly when \<open>n\<close> is negative.
\<close>

theorem columnToLetter_nonpositive:
  "n \<le> 0 \<Longrightarrow>
     columnToLetter n = [] \<and> letterToColumn conv (columnToLetter n) = 0 \<and>
     (letterToColumn conv (columnToLetter n) \<noteq> n) = (n < 0)"
  by (auto simp add: columnToLetter_nonpos letterToColumn_Nil)

theorem columnToLetter_nonpositive_witness:
  "(-5::int) \<le> 0 \<and> columnToLetter (-5) = [] \<and>
   letterToColumn conv_amd64 (columnToLetter (-5)) = 0 \<and>
   (letterToColumn conv_amd64 (columnToLetter (-5)) \<noteq> -5) = ((-5::int) < 0)"
  using columnToLetter_nonpositive [of "-5" conv_amd64] by auto

text \<open>At \<open>n = 0\<close> the result 0 is \<open>n\<close> itself.\<close>

theorem columnToLetter_zero_roundtrip_counterexample:
  "(0::int) \<le> 0 \<and> columnToLetter 0 = [] \<and> letterToColumn conv_amd64 (columnToLetter 0) = 0"
  by (simp add: columnToLetter_def columnToLetter_loop.simps letterToColumn_def
      letterToColumn_loop.simps)

section \<open>The header write\<close>

lemma Itoa_2: "Itoa 2 = ''2''"
  by code_simp

lemma updateSheetHead_eq:
  "updateSheetHead gDrive fileID title description data e =
     (fst (Values_Update (sheetsSrv gDrive) fileID
             (''A1:'' @ columnToLetter (1 + int (length data)) @ ''2'')
             [[description], map fst data] ''RAW'' (world e)),
      \<lparr>world = snd (Values_Update (sheetsSrv gDrive) fileID
             (''A1:'' @ columnToLetter (1 + int (length data)) @ ''2'')
             [[description], map fst data] ''RAW'' (world e)),
       calls = calls e @ [Values_Update_Do fileID
             (''A1:'' @ columnToLetter (1 + int (length data)) @ ''2'')
             [[description], map fst data] ''RAW'']\<rparr>)"
  by (simp add: updateSheetHead_def Let_def Itoa_2 split: prod.splits)

text \<open>
  C3: for every row with \<open>k\<close> keys and every description, the header write sends one
  update whose range starts at \<open>A1\<close>, ends in row 2 and in the column
  \<open>columnToLetter (1 + k)\<close>, and whose rows are the description alone and the keys of
  the row, one per cell, in the order the map yields them.
\<close>

theorem updateSheetHead_call:
  "calls (snd (updateSheetHead gDrive fileID title description data e)) =
     calls e @ [Values_Update_Do fileID
                  (''A1:'' @ columnToLetter (1 + int (length data)) @ ''2'')
                  [[description], map fst data] ''RAW'']"
  by (simp add: updateSheetHead_eq)

lemma columnToLetter_4: "columnToLetter 4 = ''D''"
  by (simp add: columnToLetter_def columnToLetter_loop_pos columnToLetter_loop_nonpos char_of_def)

lemma count_list_distinct: "distinct xs \<Longrightarrow> x \<in> set xs \<Longrightarrow> count_list xs x = 1"
  by (induction xs) auto

text \<open>
  C2, as amended: for a row whose keys are exactly \<open>a\<close>, \<open>b\<close> and \<open>c\<close> and the
  description \<open>D\<close>, the header write sends an update of the range \<open>A1:D2\<close> (the end
  column is that of \<open>1 + 3\<close>), with the first row \<open>[D]\<close> and a second row that holds
  each of the three keys exactly once.
\<close>

theorem updateSheetHead_abc:
  assumes "distinct (map fst data)" and "set (map fst data) = {''a'', ''b'', ''c''}"
  shows "calls (snd (updateSheetHead gDrive fileID title ''D'' data e)) =
           calls e @ [Values_Update_Do fileID ''A1:D2'' [[''D''], map fst data] ''RAW''] \<and>
         length (map fst data) = 3 \<and>
         count_list (map fst data) ''a'' = 1 \<and>
         count_list (map fst data) ''b'' = 1 \<and>
         count_list (map fst data) ''c'' = 1"
proof -
  have "card (set (map fst data)) = 3" unfolding assms(2) by simp
  then have len: "length (map fst data) = 3"
    using distinct_card [OF assms(1)] by (simp only:)
  then have "length data = 3" by simp
  then have "calls (snd (updateSheetHead gDrive fileID title ''D'' data e)) =
           calls e @ [Values_Update_Do fileID ''A1:D2'' [[''D''], map fst data] ''RAW'']"
    by (simp add: updateSheetHead_eq columnToLetter_4)
  moreover have "count_list (map fst data) k = 1" if "k \<in> {''a'', ''b'', ''c''}" for k
    using that assms by (intro count_list_distinct) simp_all
  ultimately show ?thesis using len by simp
qed

theorem updateSheetHead_abc_witness:
  "distinct (map fst [(''b'', [1::nat]), (''c'', []), (''a'', [2, 3])]) \<and>
   set (map fst [(''b'', [1::nat]), (''c'', []), (''a'', [2, 3])]) = {''a'', ''b'', ''c''} \<and>
   calls (snd (updateSheetHead (scripted (Inr []) (Inl ''e'') None (Inr (7::nat))) ''f1'' ''t'' ''D''
                 [(''b'', [1::nat]), (''c'', []), (''a'', [2, 3])] start)) =
     [Values_Update_Do ''f1'' ''A1:D2'' [[''D''], [''b'', ''c'', ''a'']] ''RAW'']"
  using updateSheetHead_abc [of "[(''b'', [1::nat]), (''c'', []), (''a'', [2, 3])]"
      "scripted (Inr []) (Inl ''e'') None (Inr (7::nat))" "''f1''" "''t''" start]
  by (simp add: start_def insert_commute)

text \<open>The range sent for the keys \<open>a\<close>, \<open>b\<close>, \<open>c\<close> is \<open>A1:D2\<close>, not \<open>A1:C2\<close>.\<close>

theorem updateSheetHead_abc_range_counterexample:
  "calls (snd (updateSheetHead (scripted (Inr []) (Inl ''e'') None (Inr (7::nat))) ''f1'' ''t'' ''D''
                 [(''a'', [1::nat]), (''b'', []), (''c'', [])] start)) =
     [Values_Update_Do ''f1'' ''A1:D2'' [[''D''], [''a'', ''b'', ''c'']] ''RAW''] \<and>
   ''A1:D2'' \<noteq> ''A1:C2''"
  by (simp add: updateSheetHead_eq columnToLetter_4 start_def)

section \<open>Resolution\<close>

lemma getSheet_hit:
  "sheets gDrive title = Some sheet \<Longrightarrow>
     getSheet gDrive title description data e = (Inr sheet, gDrive, e)"
  by (simp add: getSheet_def)

lemma getSheet_list_fails:
  assumes "sheets gDrive title = None"
    and "Files_List (driveSrv gDrive) (listQuery title (folderID gDrive)) (world e) = (Inl err, w1)"
  shows "getSheet gDrive title description data e =
           (Inl (Remote err), gDrive,
            \<lparr>world = w1, calls = calls e @ [Files_List_Do (listQuery title (folderID gDrive))]\<rparr>)"
  using assms by (simp add: getSheet_def Let_def)

lemma getSheet_zero_create_fails:
  assumes "sheets gDrive title = None"
    and "Files_List (driveSrv gDrive) (listQuery title (folderID gDrive)) (world e) = (Inr files, w1)"
    and "length files = 0"
    and "Files_Create (driveSrv gDrive) (newFile title (folderID gDrive)) w1 = (Inl err, w2)"
  shows "getSheet gDrive title description data e =
           (Inl (Remote err), gDrive,
            \<lparr>world = w2,
             calls = calls e @ [Files_List_Do (listQuery title (folderID gDrive)),
                                Files_Create_Do (newFile title (folderID gDrive))]\<rparr>)"
  using assms by (simp add: getSheet_def Let_def)

lemma getSheet_zero_created:
  assumes "sheets gDrive title = None"
    and "Files_List (driveSrv gDrive) (listQuery title (folderID gDrive)) (world e) = (Inr files, w1)"
    and "length files = 0"
    and "Files_Create (driveSrv gDrive) (newFile title (folderID gDrive)) w1 = (Inr file, w2)"
    and "Values_Update (sheetsSrv gDrive) (Id file)
           (''A1:'' @ columnToLetter (1 + int (length data)) @ ''2'')
           [[description], map fst data] ''RAW'' w2 = (updated, w3)"
    and "Spreadsheets_Get (sheetsSrv gDrive) (Id file) w3 = (fetched, w4)"
  shows "getSheet gDrive title description data e =
           (case updated of
              Some err \<Rightarrow>
                (Inl (Remote err), gDrive,
                 \<lparr>world = w3,
                  calls = calls e @ [Files_List_Do (listQuery title (folderID gDrive)),
                    Files_Create_Do (newFile title (folderID gDrive)),
                    Values_Update_Do (Id file)
                      (''A1:'' @ columnToLetter (1 + int (length data)) @ ''2'')
                      [[description], map fst data] ''RAW'']\<rparr>)
            | None \<Rightarrow>
                ((case fetched of Inl err \<Rightarrow> Inl (Remote err) | Inr sheet \<Rightarrow> Inr (Some sheet)),
                 gDrive,
                 \<lparr>world = w4,
                  calls = calls e @ [Files_List_Do (listQuery title (folderID gDrive)),
                    Files_Create_Do (newFile title (folderID gDrive)),
                    Values_Update_Do (Id file)
                      (''A1:'' @ columnToLetter (1 + int (length data)) @ ''2'')
                      [[description], map fst data] ''RAW'',
                    Spreadsheets_Get_Do (Id file)]\<rparr>))"
  using assms
  by (simp add: getSheet_def Let_def updateSheetHead_eq split: option.splits sum.splits)

lemma getSheet_one:
  assumes "sheets gDrive title = None"
    and "Files_List (driveSrv gDrive) (listQuery title (folderID gDrive)) (world e) = (Inr files, w1)"
    and "length files = 1"
    and "Values_Update (sheetsSrv gDrive) (Id (files ! 0))
           (''A1:'' @ columnToLetter (1 + int (length data)) @ ''2'')
           [[description], map fst data] ''RAW'' w1 = (updated, w3)"
    and "Spreadsheets_Get (sheetsSrv gDrive) (Id (files ! 0)) w3 = (fetched, w4)"
  shows "getSheet gDrive title description data e =
           (case updated of
              Some err \<Rightarrow>
                (Inl (Remote err), gDrive,
                 \<lparr>world = w3,
                  calls = calls e @ [Files_List_Do (listQuery title (folderID gDrive)),
                    Values_Update_Do (Id (files ! 0))
                      (''A1:'' @ columnToLetter (1 + int (length data)) @ ''2'')
                      [[description], map fst data] ''RAW'']\<rparr>)
            | None \<Rightarrow>
                (Inr (case fetched of Inl err \<Rightarrow> None | Inr sheet \<Rightarrow> Some sheet),
                 gDrive,
                 \<lparr>world = w4,
                  calls = calls e @ [Files_List_Do (listQuery title (folderID gDrive)),
                    Values_Update_Do (Id (files ! 0))
                      (''A1:'' @ columnToLetter (1 + int (length data)) @ ''2'')
                      [[description], map fst data] ''RAW'',
                    Spreadsheets_Get_Do (Id (files ! 0))]\<rparr>))"
proof -
  have "length files \<noteq> 0" using assms(3) by simp
  then show ?thesis
    using assms
    by (simp add: getSheet_def Let_def updateSheetHead_eq split: option.splits sum.splits)
qed

lemma performed_append: "calls e' = calls e @ cs \<Longrightarrow> performed e e' = cs"
  by (simp add: performed_def)

lemma getSheet_gDrive: "fst (snd (getSheet gDrive title description data e)) = gDrive"
  by (simp add: getSheet_def Let_def split: option.splits prod.splits sum.splits)

lemma getSheet_calls_extend:
  "getSheet gDrive title description data e = (r, g', e') \<Longrightarrow>
     calls e' = calls e @ performed e e'"
  by (auto simp add: getSheet_def updateSheetHead_eq performed_def Let_def
      split: option.splits prod.splits sum.splits if_splits)

text \<open>
  C5: when the title is not in the directory and the listing answers with two or more
  files, \<open>getSheet\<close> fails with the error that names the number of files, and the
  listing is the only request it has sent: no header write and no create.
\<close>

theorem getSheet_ambiguous:
  assumes "sheets gDrive title = None"
    and "Files_List (driveSrv gDrive) (listQuery title (folderID gDrive)) (world e) = (Inr files, w1)"
    and "2 \<le> length files"
    and "getSheet gDrive title description data e = (r, g', e')"
  shows "r = Inl (Errorf (''Got '' @ Itoa (int (length files)) @ '' files with name '' @ title @
                          '', expected 1'')) \<and>
         calls e' = calls e @ [Files_List_Do (listQuery title (folderID gDrive))] \<and>
         header_writes (performed e e') = 0 \<and> creates (performed e e') = 0"
proof -
  have many: "length files \<noteq> 0" "length files \<noteq> 1" using assms(3) by auto
  have "getSheet gDrive title description data e =
          (Inl (Errorf (''Got '' @ Itoa (int (length files)) @ '' files with name '' @ title @
                          '', expected 1'')), gDrive,
           \<lparr>world = w1, calls = calls e @ [Files_List_Do (listQuery title (folderID gDrive))]\<rparr>)"
    using assms(1,2) many by (simp add: getSheet_def Let_def)
  with assms(4) have "r = Inl (Errorf (''Got '' @ Itoa (int (length files)) @ '' files with name '' @ title @
                          '', expected 1''))"
    and "calls e' = calls e @ [Files_List_Do (listQuery title (folderID gDrive))]"
    by auto
  then show ?thesis
    by (simp add: performed_append header_writes_def creates_def)
qed

theorem getSheet_ambiguous_witness:
  "sheets (scripted (Inr [\<lparr>Id = ''f1'', Name = ''t'', MimeType = [], Parents = [''F'']\<rparr>,
                          \<lparr>Id = ''f2'', Name = ''t'', MimeType = [], Parents = [''F'']\<rparr>])
             (Inl ''unused'') None (Inr (7::nat))) ''t'' = None \<and>
   (2::nat) \<le> length [\<lparr>Id = ''f1'', Name = ''t'', MimeType = [], Parents = [''F'']\<rparr>,
                        \<lparr>Id = ''f2'', Name = ''t'', MimeType = [], Parents = [''F'']\<rparr>] \<and>
   getSheet (scripted (Inr [\<lparr>Id = ''f1'', Name = ''t'', MimeType = [], Parents = [''F'']\<rparr>,
                            \<lparr>Id = ''f2'', Name = ''t'', MimeType = [], Parents = [''F'']\<rparr>])
               (Inl ''unused'') None (Inr (7::nat))) ''t'' ''D'' [(''a'', [1::nat])] start =
     (Inl (Errorf ''Got 2 files with name t, expected 1''),
      scripted (Inr [\<lparr>Id = ''f1'', Name = ''t'', MimeType = [], Parents = [''F'']\<rparr>,
                     \<lparr>Id = ''f2'', Name = ''t'', MimeType = [], Parents = [''F'']\<rparr>])
        (Inl ''unused'') None (Inr (7::nat)),
      \<lparr>world = (), calls = [Files_List_Do (listQuery ''t'' ''F'')]\<rparr>)"
proof -
  let ?fs = "[\<lparr>Id = ''f1'', Name = ''t'', MimeType = [], Parents = [''F'']\<rparr>,
              \<lparr>Id = ''f2'', Name = ''t'', MimeType = [], Parents = [''F'']\<rparr>]"
  let ?g = "scripted (Inr ?fs) (Inl ''unused'') None (Inr (7::nat))"
  obtain r g' e' where res: "getSheet ?g ''t'' ''D'' [(''a'', [1::nat])] start = (r, g', e')"
    by (cases "getSheet ?g ''t'' ''D'' [(''a'', [1::nat])] start")
  have miss: "sheets ?g ''t'' = None" by (simp add: scripted_def)
  have list: "Files_List (driveSrv ?g) (listQuery ''t'' (folderID ?g)) (world start) = (Inr ?fs, ())"
    by (simp add: scripted_def)
  have two: "2 \<le> length ?fs" by simp
  have itoa: "Itoa 2 = ''2''" by code_simp
  note getSheet_ambiguous [OF miss list two res]
  then have "r = Inl (Errorf ''Got 2 files with name t, expected 1'')"
    and "calls e' = calls start @ [Files_List_Do (listQuery ''t'' ''F'')]"
    by (simp_all add: itoa scripted_def)
  moreover have "g' = ?g" using getSheet_gDrive [of ?g "''t''" "''D''" "[(''a'', [1::nat])]" start] res by simp
  moreover have "world e' = ()" by simp
  ultimately show ?thesis
    using miss two res by (simp add: start_def)
qed

text \<open>
  C6. The title is not in the directory and the listing succeeds.
  With no file listed and the create, the header write and the fetch succeeding,
  \<open>getSheet\<close> sends the listing, one create, one header write and the fetch, in this
  order and nothing else, and returns the sheet fetched for the created file.
  With one file listed it sends no create and exactly one header write, whatever the
  remote answers; with the header write and the fetch succeeding it sends the listing,
  the header write and the fetch, in this order and nothing else, and returns the sheet
  fetched for the listed file.
\<close>

theorem getSheet_miss_calls:
  assumes miss: "sheets gDrive title = None"
    and list: "Files_List (driveSrv gDrive) (listQuery title (folderID gDrive)) (world e) = (Inr files, w1)"
    and res: "getSheet gDrive title description data e = (r, g', e')"
  shows
    "(length files = 0 \<longrightarrow>
        (\<forall>created w2 w3 w4 sheet.
           Files_Create (driveSrv gDrive) (newFile title (folderID gDrive)) w1 = (Inr created, w2) \<and>
           Values_Update (sheetsSrv gDrive) (Id created)
             (''A1:'' @ columnToLetter (1 + int (length data)) @ ''2'')
             [[description], map fst data] ''RAW'' w2 = (None, w3) \<and>
           Spreadsheets_Get (sheetsSrv gDrive) (Id created) w3 = (Inr sheet, w4) \<longrightarrow>
           r = Inr (Some sheet) \<and>
           calls e' = calls e @
             [Files_List_Do (listQuery title (folderID gDrive)),
              Files_Create_Do (newFile title (folderID gDrive)),
              Values_Update_Do (Id created)
                (''A1:'' @ columnToLetter (1 + int (length data)) @ ''2'')
                [[description], map fst data] ''RAW'',
              Spreadsheets_Get_Do (Id created)] \<and>
           creates (performed e e') = 1 \<and>
           header_writes (performed e e') = 1)) \<and>
     (length files = 1 \<longrightarrow>
        creates (performed e e') = 0 \<and>
        header_writes (performed e e') = 1 \<and>
        (\<forall>w3 w4 sheet.
           Values_Update (sheetsSrv gDrive) (Id (files ! 0))
             (''A1:'' @ columnToLetter (1 + int (length data)) @ ''2'')
             [[description], map fst data] ''RAW'' w1 = (None, w3) \<and>
           Spreadsheets_Get (sheetsSrv gDrive) (Id (files ! 0)) w3 = (Inr sheet, w4) \<longrightarrow>
           r = Inr (Some sheet) \<and>
           calls e' = calls e @
             [Files_List_Do (listQuery title (folderID gDrive)),
              Values_Update_Do (Id (files ! 0))
                (''A1:'' @ columnToLetter (1 + int (length data)) @ ''2'')
                [[description], map fst data] ''RAW'',
              Spreadsheets_Get_Do (Id (files ! 0))]))"
proof -
  let ?q = "listQuery title (folderID gDrive)"
  let ?new = "newFile title (folderID gDrive)"
  let ?rng = "''A1:'' @ columnToLetter (1 + int (length data)) @ ''2''"
  let ?vals = "[[description], map fst data]"
  have zero_case:
    "r = Inr (Some sheet) \<and>
     calls e' = calls e @ [Files_List_Do ?q, Files_Create_Do ?new,
                 Values_Update_Do (Id created) ?rng ?vals ''RAW'',
                 Spreadsheets_Get_Do (Id created)] \<and>
     creates (performed e e') = 1 \<and> header_writes (performed e e') = 1"
    if zero: "length files = 0"
      and c: "Files_Create (driveSrv gDrive) ?new w1 = (Inr created, w2)"
      and u: "Values_Update (sheetsSrv gDrive) (Id created) ?rng ?vals ''RAW'' w2 = (None, w3)"
      and f: "Spreadsheets_Get (sheetsSrv gDrive) (Id created) w3 = (Inr sheet, w4)"
    for created w2 w3 w4 sheet
  proof -
    from getSheet_zero_created [OF miss list zero c u f] res
    have r: "r = Inr (Some sheet)"
      and cs: "calls e' = calls e @ [Files_List_Do ?q, Files_Create_Do ?new,
                 Values_Update_Do (Id created) ?rng ?vals ''RAW'',
                 Spreadsheets_Get_Do (Id created)]"
      by auto
    from cs have "creates (performed e e') = 1" and "header_writes (performed e e') = 1"
      by (simp_all add: performed_append creates_def header_writes_def)
    with r cs show ?thesis by simp
  qed
  have one_counts: "creates (performed e e') = 0 \<and> header_writes (performed e e') = 1"
    if one: "length files = 1"
  proof -
    obtain updated w3 where u:
      "Values_Update (sheetsSrv gDrive) (Id (files ! 0)) ?rng ?vals ''RAW'' w1 = (updated, w3)"
      by (cases "Values_Update (sheetsSrv gDrive) (Id (files ! 0)) ?rng ?vals ''RAW'' w1")
    obtain fetched w4 where f:
      "Spreadsheets_Get (sheetsSrv gDrive) (Id (files ! 0)) w3 = (fetched, w4)"
      by (cases "Spreadsheets_Get (sheetsSrv gDrive) (Id (files ! 0)) w3")
    note eq = getSheet_one [OF miss list one u f]
    show ?thesis
    proof (cases updated)
      case (Some err)
      with eq res have "calls e' = calls e @ [Files_List_Do ?q,
               Values_Update_Do (Id (files ! 0)) ?rng ?vals ''RAW'']" by auto
      then show ?thesis
        by (simp add: performed_append creates_def header_writes_def)
    next
      case None
      with eq res have "calls e' = calls e @ [Files_List_Do ?q,
               Values_Update_Do (Id (files ! 0)) ?rng ?vals ''RAW'',
               Spreadsheets_Get_Do (Id (files ! 0))]" by auto
      then show ?thesis
        by (simp add: performed_append creates_def header_writes_def)
    qed
  qed
  have one_case:
    "r = Inr (Some sheet) \<and>
     calls e' = calls e @ [Files_List_Do ?q,
               Values_Update_Do (Id (files ! 0)) ?rng ?vals ''RAW'',
               Spreadsheets_Get_Do (Id (files ! 0))]"
    if one: "length files = 1"
      and u: "Values_Update (sheetsSrv gDrive) (Id (files ! 0)) ?rng ?vals ''RAW'' w1 = (None, w3)"
      and f: "Spreadsheets_Get (sheetsSrv gDrive) (Id (files ! 0)) w3 = (Inr sheet, w4)"
    for w3 w4 sheet
    using getSheet_one [OF miss list one u f] res by auto
  show ?thesis
  proof (intro conjI impI allI)
    fix created w2 w3 w4 sheet
    assume zero: "length files = 0"
      and ok: "Files_Create (driveSrv gDrive) ?new w1 = (Inr created, w2) \<and>
           Values_Update (sheetsSrv gDrive) (Id created) ?rng ?vals ''RAW'' w2 = (None, w3) \<and>
           Spreadsheets_Get (sheetsSrv gDrive) (Id created) w3 = (Inr sheet, w4)"
    note z = zero_case [OF zero ok [THEN conjunct1] ok [THEN conjunct2, THEN conjunct1]
        ok [THEN conjunct2, THEN conjunct2]]
    show "r = Inr (Some sheet)" using z by simp
    show "calls e' = calls e @ [Files_List_Do ?q, Files_Create_Do ?new,
                 Values_Update_Do (Id created) ?rng ?vals ''RAW'',
                 Spreadsheets_Get_Do (Id created)]" using z by simp
    show "creates (performed e e') = 1" using z by simp
    show "header_writes (performed e e') = 1" using z by simp
  next
    assume "length files = 1"
    then show "creates (performed e e') = 0" using one_counts by simp
  next
    assume "length files = 1"
    then show "header_writes (performed e e') = 1" using one_counts by simp
  next
    fix w3 w4 sheet
    assume one: "length files = 1"
      and ok: "Values_Update (sheetsSrv gDrive) (Id (files ! 0)) ?rng ?vals ''RAW'' w1 = (None, w3) \<and>
           Spreadsheets_Get (sheetsSrv gDrive) (Id (files ! 0)) w3 = (Inr sheet, w4)"
    show "r = Inr (Some sheet)"
      using one_case [OF one ok [THEN conjunct1] ok [THEN conjunct2]] by simp
  next
    fix w3 w4 sheet
    assume one: "length files = 1"
      and ok: "Values_Update (sheetsSrv gDrive) (Id (files ! 0)) ?rng ?vals ''RAW'' w1 = (None, w3) \<and>
           Spreadsheets_Get (sheetsSrv gDrive) (Id (files ! 0)) w3 = (Inr sheet, w4)"
    show "calls e' = calls e @ [Files_List_Do ?q,
               Values_Update_Do (Id (files ! 0)) ?rng ?vals ''RAW'',
               Spreadsheets_Get_Do (Id (files ! 0))]"
      using one_case [OF one ok [THEN conjunct1] ok [THEN conjunct2]] by simp
  qed
qed

text \<open>
  Two runs: no file listed and the file \<open>f1\<close> created, and the one file \<open>f0\<close> listed;
  every request succeeds and the fetch answers with the sheet 7.
\<close>

theorem getSheet_miss_calls_witness:
  "getSheet (scripted (Inr []) (Inr \<lparr>Id = ''f1'', Name = ''t'', MimeType = [], Parents = [''F'']\<rparr>)
       None (Inr (7::nat)) :: (unit, string, nat) GDrive) ''t'' ''D'' [(''a'', [1::nat])] start =
     (Inr (Some 7),
      scripted (Inr []) (Inr \<lparr>Id = ''f1'', Name = ''t'', MimeType = [], Parents = [''F'']\<rparr>)
        None (Inr (7::nat)),
      \<lparr>world = (),
       calls = [Files_List_Do (listQuery ''t'' ''F''), Files_Create_Do (newFile ''t'' ''F''),
                Values_Update_Do ''f1'' ''A1:B2'' [[''D''], [''a'']] ''RAW'',
                Spreadsheets_Get_Do ''f1'']\<rparr>) \<and>
   getSheet (scripted (Inr [\<lparr>Id = ''f0'', Name = ''t'', MimeType = [], Parents = [''F'']\<rparr>])
       (Inl ''unused'') None (Inr (7::nat)) :: (unit, string, nat) GDrive)
       ''t'' ''D'' [(''a'', [1::nat])] start =
     (Inr (Some 7),
      scripted (Inr [\<lparr>Id = ''f0'', Name = ''t'', MimeType = [], Parents = [''F'']\<rparr>])
        (Inl ''unused'') None (Inr (7::nat)),
      \<lparr>world = (),
       calls = [Files_List_Do (listQuery ''t'' ''F''),
                Values_Update_Do ''f0'' ''A1:B2'' [[''D''], [''a'']] ''RAW'',
                Spreadsheets_Get_Do ''f0'']\<rparr>)"
proof -
  let ?f1 = "\<lparr>Id = ''f1'', Name = ''t'', MimeType = [], Parents = [''F'']\<rparr>"
  let ?f0 = "\<lparr>Id = ''f0'', Name = ''t'', MimeType = [], Parents = [''F'']\<rparr>"
  let ?g = "scripted (Inr []) (Inr ?f1) None (Inr (7::nat)) :: (unit, string, nat) GDrive"
  let ?h = "scripted (Inr [?f0]) (Inl ''unused'') None (Inr (7::nat)) :: (unit, string, nat) GDrive"
  let ?data = "[(''a'', [1::nat])]"
  let ?run = "getSheet ?g ''t'' ''D'' ?data start"
  let ?run1 = "getSheet ?h ''t'' ''D'' ?data start"
  have b: "columnToLetter 2 = ''B''"
    by (simp add: columnToLetter_def columnToLetter_loop_pos columnToLetter_loop_nonpos char_of_def)
  have miss: "sheets ?g ''t'' = None" by (simp add: scripted_def)
  have list: "Files_List (driveSrv ?g) (listQuery ''t'' (folderID ?g)) (world start) = (Inr [], ())"
    by (simp add: scripted_def)
  have res: "?run = (fst ?run, fst (snd ?run), snd (snd ?run))" by simp
  have ok: "Files_Create (driveSrv ?g) (newFile ''t'' (folderID ?g)) () = (Inr ?f1, ()) \<and>
      Values_Update (sheetsSrv ?g) (Id ?f1)
        (''A1:'' @ columnToLetter (1 + int (length ?data)) @ ''2'')
        [[''D''], map fst ?data] ''RAW'' () = (None, ()) \<and>
      Spreadsheets_Get (sheetsSrv ?g) (Id ?f1) () = (Inr 7, ())"
    by (simp add: scripted_def)
  from getSheet_miss_calls [OF miss list res, THEN conjunct1, rule_format, OF _ ok]
  have z: "fst ?run = Inr (Some 7)"
    "calls (snd (snd ?run)) = calls start @
       [Files_List_Do (listQuery ''t'' (folderID ?g)), Files_Create_Do (newFile ''t'' (folderID ?g)),
        Values_Update_Do (Id ?f1) (''A1:'' @ columnToLetter (1 + int (length ?data)) @ ''2'')
          [[''D''], map fst ?data] ''RAW'',
        Spreadsheets_Get_Do (Id ?f1)]"
    by simp_all
  have g: "fst (snd ?run) = ?g" by (rule getSheet_gDrive)
  have w: "world (snd (snd ?run)) = ()" by simp
  have "snd (snd ?run) = \<lparr>world = (),
       calls = [Files_List_Do (listQuery ''t'' ''F''), Files_Create_Do (newFile ''t'' ''F''),
                Values_Update_Do ''f1'' ''A1:B2'' [[''D''], [''a'']] ''RAW'',
                Spreadsheets_Get_Do ''f1'']\<rparr>"
    using z(2) w by (simp add: b scripted_def start_def)
  with z(1) g have first: "?run = (Inr (Some 7), ?g,
      \<lparr>world = (),
       calls = [Files_List_Do (listQuery ''t'' ''F''), Files_Create_Do (newFile ''t'' ''F''),
                Values_Update_Do ''f1'' ''A1:B2'' [[''D''], [''a'']] ''RAW'',
                Spreadsheets_Get_Do ''f1'']\<rparr>)"
    by (metis prod.collapse)
  have miss1: "sheets ?h ''t'' = None" by (simp add: scripted_def)
  have list1: "Files_List (driveSrv ?h) (listQuery ''t'' (folderID ?h)) (world start) = (Inr [?f0], ())"
    by (simp add: scripted_def)
  have res1: "?run1 = (fst ?run1, fst (snd ?run1), snd (snd ?run1))" by simp
  have ok1: "Values_Update (sheetsSrv ?h) (Id ([?f0] ! 0))
        (''A1:'' @ columnToLetter (1 + int (length ?data)) @ ''2'')
        [[''D''], map fst ?data] ''RAW'' () = (None, ()) \<and>
      Spreadsheets_Get (sheetsSrv ?h) (Id ([?f0] ! 0)) () = (Inr 7, ())"
    by (simp add: scripted_def)
  from getSheet_miss_calls [OF miss1 list1 res1, THEN conjunct2, rule_format, THEN conjunct2,
      THEN conjunct2, rule_format, OF _ ok1]
  have o: "fst ?run1 = Inr (Some 7)"
    "calls (snd (snd ?run1)) = calls start @
       [Files_List_Do (listQuery ''t'' (folderID ?h)),
        Values_Update_Do (Id ([?f0] ! 0)) (''A1:'' @ columnToLetter (1 + int (length ?data)) @ ''2'')
          [[''D''], map fst ?data] ''RAW'',
        Spreadsheets_Get_Do (Id ([?f0] ! 0))]"
    by simp_all
  have g1: "fst (snd ?run1) = ?h" by (rule getSheet_gDrive)
  have w1: "world (snd (snd ?run1)) = ()" by simp
  have "snd (snd ?run1) = \<lparr>world = (),
       calls = [Files_List_Do (listQuery ''t'' ''F''),
                Values_Update_Do ''f0'' ''A1:B2'' [[''D''], [''a'']] ''RAW'',
                Spreadsheets_Get_Do ''f0'']\<rparr>"
    using o(2) w1 by (simp add: b scripted_def start_def)
  with o(1) g1 have second: "?run1 = (Inr (Some 7), ?h,
      \<lparr>world = (),
       calls = [Files_List_Do (listQuery ''t'' ''F''),
                Values_Update_Do ''f0'' ''A1:B2'' [[''D''], [''a'']] ''RAW'',
                Spreadsheets_Get_Do ''f0'']\<rparr>)"
    by (metis prod.collapse)
  from first second show ?thesis by (rule conjI)
qed

text \<open>
  C7: whenever \<open>getSheet\<close> returns an error, the directory \<open>sheets\<close> after the call is
  the one before the call.
\<close>

theorem getSheet_error_keeps_sheets:
  "getSheet gDrive title description data e = (Inl err, g', e') \<Longrightarrow> sheets g' = sheets gDrive"
  using getSheet_gDrive [of gDrive title description data e] by simp

theorem getSheet_error_keeps_sheets_witness:
  "fst (getSheet ((scripted (Inr []) (Inr \<lparr>Id = ''f1'', Name = ''t'', MimeType = [], Parents = [''F'']\<rparr>)
                     (Some ''denied'') (Inr (7::nat)))\<lparr>sheets := [''other'' \<mapsto> Some 3]\<rparr>)
          ''t'' ''D'' [(''a'', [1::nat])] start) = Inl (Remote ''denied'') \<and>
   sheets (fst (snd (getSheet
        ((scripted (Inr []) (Inr \<lparr>Id = ''f1'', Name = ''t'', MimeType = [], Parents = [''F'']\<rparr>)
            (Some ''denied'') (Inr (7::nat)))\<lparr>sheets := [''other'' \<mapsto> Some 3]\<rparr>)
        ''t'' ''D'' [(''a'', [1::nat])] start))) = [''other'' \<mapsto> Some 3]"
proof -
  let ?g = "(scripted (Inr []) (Inr \<lparr>Id = ''f1'', Name = ''t'', MimeType = [], Parents = [''F'']\<rparr>)
               (Some ''denied'') (Inr (7::nat)))\<lparr>sheets := [''other'' \<mapsto> Some 3]\<rparr>"
  let ?run = "getSheet ?g ''t'' ''D'' [(''a'', [1::nat])] start"
  have r: "fst ?run = Inl (Remote ''denied'')"
    by (simp add: getSheet_def updateSheetHead_eq scripted_def start_def Let_def)
  then have "?run = (Inl (Remote ''denied''), fst (snd ?run), snd (snd ?run))"
    by (metis prod.collapse)
  then have "sheets (fst (snd ?run)) = sheets ?g"
    by (rule getSheet_error_keeps_sheets)
  then show ?thesis using r by (simp add: scripted_def)
qed

section \<open>The row logger\<close>

lemma updateSheetHead_keys:
  "map fst data' = map fst data \<Longrightarrow>
     updateSheetHead gDrive fileID title description data' e =
     updateSheetHead gDrive fileID title description data e"
proof -
  assume k: "map fst data' = map fst data"
  then have "length data' = length data" by (metis length_map)
  with k show ?thesis by (simp add: updateSheetHead_eq)
qed

lemma getSheet_keys:
  "map fst data' = map fst data \<Longrightarrow>
     getSheet gDrive title description data' e = getSheet gDrive title description data e"
proof -
  assume "map fst data' = map fst data"
  then have "updateSheetHead gDrive fileID title description data' =
               updateSheetHead gDrive fileID title description data" for fileID
    by (intro ext) (rule updateSheetHead_keys)
  then show ?thesis unfolding getSheet_def by (simp cong del: if_weak_cong option.case_cong_weak sum.case_cong_weak)
qed

lemma getSheet_header_writes:
  assumes "getSheet gDrive title description data e = (r, g', e')"
  shows "\<forall>c \<in> set (performed e e'). is_header_write c \<longrightarrow>
           (\<exists>fileID. c = Values_Update_Do fileID
              (''A1:'' @ columnToLetter (1 + int (length data)) @ ''2'')
              [[description], map fst data] ''RAW'')"
  using assms
  by (auto simp add: getSheet_def updateSheetHead_eq performed_def Let_def
      split: option.splits prod.splits sum.splits if_splits)

text \<open>
  C8: \<open>LogRow\<close> returns no error exactly when \<open>getSheet\<close> returns a sheet, and the
  error of \<open>getSheet\<close> otherwise, and leaves the world as \<open>getSheet\<close> left it. Every
  update it has sent is a header write, of the description and the keys into rows 1 and
  2, and nothing \<open>LogRow\<close> does depends on the values of the row: rows with the same
  keys give the same result and the same requests.
\<close>

theorem LogRow_delegates:
  assumes "getSheet gDrive title description row e = (r, g', e')"
  shows "LogRow gDrive title description row e =
           ((case r of Inl err \<Rightarrow> Some err | Inr sheet \<Rightarrow> None), e') \<and>
         (\<forall>c \<in> set (performed e e'). is_header_write c \<longrightarrow>
            (\<exists>fileID. c = Values_Update_Do fileID
               (''A1:'' @ columnToLetter (1 + int (length row)) @ ''2'')
               [[description], map fst row] ''RAW'')) \<and>
         (\<forall>row' :: (string \<times> 'u list) list. map fst row' = map fst row \<longrightarrow>
            LogRow gDrive title description row' e = LogRow gDrive title description row e)"
proof (intro conjI allI impI)
  show "LogRow gDrive title description row e =
           ((case r of Inl err \<Rightarrow> Some err | Inr sheet \<Rightarrow> None), e')"
    using assms by (simp add: LogRow_def split: sum.splits)
  show "\<forall>c \<in> set (performed e e'). is_header_write c \<longrightarrow>
            (\<exists>fileID. c = Values_Update_Do fileID
               (''A1:'' @ columnToLetter (1 + int (length row)) @ ''2'')
               [[description], map fst row] ''RAW'')"
    using assms by (rule getSheet_header_writes)
  show "LogRow gDrive title description row' e = LogRow gDrive title description row e"
    if "map fst row' = map fst row" for row' :: "(string \<times> 'u list) list"
    using that by (simp add: LogRow_def getSheet_keys [of row' row])
qed

theorem LogRow_delegates_witness:
  "getSheet (scripted (Inr [\<lparr>Id = ''f1'', Name = ''t'', MimeType = [], Parents = [''F'']\<rparr>])
       (Inl ''unused'') None (Inr (7::nat))) ''t'' ''D'' [(''a'', [1::nat]), (''b'', [2])] start =
     (Inr (Some 7),
      scripted (Inr [\<lparr>Id = ''f1'', Name = ''t'', MimeType = [], Parents = [''F'']\<rparr>])
        (Inl ''unused'') None (Inr (7::nat)),
      \<lparr>world = (),
       calls = [Files_List_Do (listQuery ''t'' ''F''),
                Values_Update_Do ''f1'' ''A1:C2'' [[''D''], [''a'', ''b'']] ''RAW'',
                Spreadsheets_Get_Do ''f1'']\<rparr>) \<and>
   LogRow (scripted (Inr [\<lparr>Id = ''f1'', Name = ''t'', MimeType = [], Parents = [''F'']\<rparr>])
       (Inl ''unused'') None (Inr (7::nat))) ''t'' ''D'' [(''a'', [1::nat]), (''b'', [2])] start =
     (None,
      \<lparr>world = (),
       calls = [Files_List_Do (listQuery ''t'' ''F''),
                Values_Update_Do ''f1'' ''A1:C2'' [[''D''], [''a'', ''b'']] ''RAW'',
                Spreadsheets_Get_Do ''f1'']\<rparr>)"
proof -
  let ?g = "scripted (Inr [\<lparr>Id = ''f1'', Name = ''t'', MimeType = [], Parents = [''F'']\<rparr>])
              (Inl ''unused'') None (Inr (7::nat))"
  let ?e = "\<lparr>world = (),
       calls = [Files_List_Do (listQuery ''t'' ''F''),
                Values_Update_Do ''f1'' ''A1:C2'' [[''D''], [''a'', ''b'']] ''RAW'',
                Spreadsheets_Get_Do ''f1'']\<rparr>"
  have run: "getSheet ?g ''t'' ''D'' [(''a'', [1::nat]), (''b'', [2])] start = (Inr (Some 7), ?g, ?e)"
    by (simp add: getSheet_def updateSheetHead_eq scripted_def start_def Let_def
        columnToLetter_def columnToLetter_loop_pos columnToLetter_loop_nonpos char_of_def)
  from LogRow_delegates [OF run, THEN conjunct1]
  have "LogRow ?g ''t'' ''D'' [(''a'', [1::nat]), (''b'', [2])] start = (None, ?e)"
    by simp
  with run show ?thesis by simp
qed

section \<open>The directory is never written\<close>

text \<open>
  C1 fails on the code: \<open>getSheet\<close> never stores into \<open>sheets\<close>. With one file listed
  for the title and every request succeeding, the directory has no entry for the title
  after the first call, and the second call sends the listing, the header write and the
  fetch again.
\<close>

theorem getSheet_twice_repeats_lookup:
  "getSheet_twice
     (scripted (Inr [\<lparr>Id = ''f1'', Name = ''t'', MimeType = [], Parents = [''F'']\<rparr>])
        (Inl ''unused'') None (Inr (7::nat)))
     ''t'' ''D'' [(''a'', [1::nat])] start =
   (Inr (Some 7), Inr (Some 7), None,
    [Files_List_Do (listQuery ''t'' ''F''),
     Values_Update_Do ''f1'' ''A1:B2'' [[''D''], [''a'']] ''RAW'',
     Spreadsheets_Get_Do ''f1''],
    [Files_List_Do (listQuery ''t'' ''F''),
     Values_Update_Do ''f1'' ''A1:B2'' [[''D''], [''a'']] ''RAW'',
     Spreadsheets_Get_Do ''f1''])"
  by (simp add: getSheet_twice_def getSheet_def updateSheetHead_eq scripted_def start_def
      performed_def Let_def columnToLetter_def columnToLetter_loop_pos columnToLetter_loop_nonpos
      char_of_def)

end
